theory Spec2Isabelle
  imports Main "HOL-Library.AList"
begin

section \<open>Data model of tchannel/outgoing.py\<close>

text \<open>
  Byte strings of Python 2 are character lists. Python integers are unbounded, so the
  identifier counter, status codes and ports are \<open>int\<close>.
\<close>

type_synonym bytes = string

text \<open>\<^verbatim>\<open>TChannelOutOps.State\<close>: the enum \<^verbatim>\<open>init = 0, ready = 1, closed = 2\<close>.\<close>

datatype State = init | ready | closed

text \<open>
  The exceptions that the modelled code raises or lets through. In Python 2
  \<^verbatim>\<open>socket.timeout\<close> is a subclass of \<^verbatim>\<open>socket.error\<close>, which
  \<open>is_socket_error\<close> records. \<open>EncodingError\<close> stands for whatever the wire codec
  raises when it cannot frame a message.
\<close>

datatype exn =
    AssertionError string
  | AttributeError string
  | KeyError int
  | SocketError
  | SocketTimeout
  | RuntimeError string
  | EncodingError string
  | TChannelApplicationException int bytes bytes bytes

fun is_socket_error :: "exn \<Rightarrow> bool" where
  "is_socket_error SocketError = True"
| "is_socket_error SocketTimeout = True"
| "is_socket_error _ = False"

text \<open>\<^verbatim>\<open>CallRequestMessage(arg_1, arg_2, arg_3)\<close>, the only message \<^verbatim>\<open>send\<close> builds.\<close>

datatype message = CallRequestMessage bytes bytes bytes

text \<open>A decoded response: the object whose \<^verbatim>\<open>code\<close>, \<^verbatim>\<open>arg_1\<close>,
  \<^verbatim>\<open>arg_2\<close> and \<^verbatim>\<open>arg_3\<close> attributes \<^verbatim>\<open>handle_response\<close> reads.\<close>

record response =
  code :: int
  arg_1 :: bytes
  arg_2 :: bytes
  arg_3 :: bytes

text \<open>
  Modelled from the spec: \<^verbatim>\<open>SettableFuture\<close> of tchannel/futures.py, which is not
  among the sources. The spec calls it a single-resolution future holding the eventual
  response or failure: it is pending, or holds a result, or holds an exception. Futures
  are heap objects shared between the caller of \<^verbatim>\<open>send\<close>, the outbound queue and
  the pending-call table, so they live in a store and are referred to by address.
\<close>

datatype future_state = Pending | Result response | Exception exn

text \<open>\<^verbatim>\<open>Request = namedtuple('Request', 'message, future')\<close>; the sender loop tests
  the message against \<^verbatim>\<open>None\<close>, so it is optional.\<close>

record Request =
  message :: "message option"
  future :: nat

text \<open>
  The two values \<^verbatim>\<open>_on_close\<close> takes in this file: the default
  \<^verbatim>\<open>lambda x: x\<close> and the registry's
  \<^verbatim>\<open>partial(self._on_conn_close, host, port)\<close>.
\<close>

datatype on_close_cb = Identity | OnConnClose string int

text \<open>
  The externally visible operations of a connection, in program order: calls into the
  wire codec, thread starts and joins, the socket close and the close callback. The log
  field of a connection records them; it is how the order of effects is stated.
\<close>

datatype event =
    InitiateHandshake string string
  | AwaitHandshakeReply
  | SenderStart
  | ReceiverStart
  | FrameAndWrite message int
  | SetState State
  | PutPoison
  | SenderJoin
  | SockClose
  | ReceiverJoin
  | OnClose

text \<open>
  \<^verbatim>\<open>TChannelOutOps\<close>. The fields follow \<^verbatim>\<open>__init__\<close>: \<open>outstanding\<close> is the
  FIFO queue (an entry \<open>None\<close> is the poison marker), \<open>futures\<close> the pending-call
  table. \<open>fheap\<close> and \<open>next_future\<close> are the store of the future objects this
  connection refers to and its allocation pointer. The polling timeout (a float) only
  bounds how long a blocking read waits and is left out.
\<close>

record conn =
  name :: string
  sock :: nat
  state :: State
  outstanding :: "Request option list"
  on_close :: on_close_cb
  id_counter :: int
  futures :: "int \<rightharpoonup> nat"
  fheap :: "nat \<rightharpoonup> future_state"
  next_future :: nat
  log :: "event list"

section \<open>The identifier allocator\<close>

text \<open>\<^verbatim>\<open>_next_message_id\<close>: increment the counter under the lock, return the new value.\<close>

definition next_message_id :: "conn \<Rightarrow> int \<times> conn" where
  "next_message_id c =
     (let c' = c\<lparr>id_counter := id_counter c + 1\<rparr> in (id_counter c', c'))"

text \<open>\<open>n\<close> invocations of the allocator on one connection, one after the other (the lock
  serialises them); the identifiers are returned in the order of the calls.\<close>

fun allocate :: "nat \<Rightarrow> conn \<Rightarrow> int list \<times> conn" where
  "allocate 0 c = ([], c)"
| "allocate (Suc n) c =
     (case next_message_id c of (i, c1) \<Rightarrow>
        (case allocate n c1 of (ids, c2) \<Rightarrow> (i # ids, c2)))"

text \<open>A connection as \<^verbatim>\<open>__init__\<close> leaves its fields before the handshake.\<close>

definition fresh_conn :: "string \<Rightarrow> nat \<Rightarrow> on_close_cb \<Rightarrow> conn" where
  "fresh_conn nm s cb =
     \<lparr>name = nm, sock = s, state = init, outstanding = [], on_close = cb,
      id_counter = 0, futures = Map.empty, fheap = Map.empty, next_future = 0,
      log = []\<rparr>"

section \<open>The wire codec boundary\<close>

text \<open>
  \<^verbatim>\<open>SocketConnection\<close> (tchannel/socket.py) is not among the sources: the connection
  only sequences calls to it. What each call does is therefore a parameter: whether
  \<^verbatim>\<open>initiate_handshake\<close> raises, what \<^verbatim>\<open>await_handshake_reply\<close> returns or
  raises, and whether \<^verbatim>\<open>frame_and_write\<close> raises for a message and identifier.
\<close>

record codec =
  initiate_handshake :: "exn option"
  await_handshake_reply :: "exn + string"
  frame_and_write :: "message \<Rightarrow> int \<Rightarrow> exn option"

text \<open>
  What one call of \<^verbatim>\<open>self._conn.await()\<close> does: it raises, it returns
  \<^verbatim>\<open>None\<close> at the end of the stream, or it returns a context with a message
  identifier and a message.
\<close>

datatype await_result = AwaitRaises exn | EndOfStream | Frame int response

section \<open>Handshake and construction\<close>

text \<open>
  \<^verbatim>\<open>handshake\<close>. The message of the assertion is only evaluated when the assertion
  fails, and it reads \<^verbatim>\<open>self.host\<close>, an attribute that \<^verbatim>\<open>TChannelOutOps\<close> never
  sets: on a closed connection the call raises \<^verbatim>\<open>AttributeError\<close> before the
  \<^verbatim>\<open>AssertionError\<close> is built.
\<close>

definition handshake :: "codec \<Rightarrow> conn \<Rightarrow> (exn + string option) \<times> conn" where
  "handshake cd c =
     (if state c = closed then (Inl (AttributeError ''host''), c)
      else if state c \<noteq> init then (Inr None, c)
      else
        let c1 = c\<lparr>log := log c @ [InitiateHandshake ''0.0.0.0:0'' (name c)]\<rparr> in
        (case initiate_handshake cd of
           Some e \<Rightarrow> (Inl e, c1)
         | None \<Rightarrow>
             let c2 = c1\<lparr>log := log c1 @ [AwaitHandshakeReply]\<rparr> in
             (case await_handshake_reply cd of
                Inl e \<Rightarrow> (Inl e, c2)
              | Inr resp \<Rightarrow> (Inr (Some resp), c2\<lparr>state := ready\<rparr>))))"

text \<open>\<^verbatim>\<open>__init__\<close>: set the fields, shake hands if asked to, then create the pending-call
  table and start both threads. An exception of the handshake leaves no object behind.\<close>

definition TChannelOutOps_init ::
  "codec \<Rightarrow> string \<Rightarrow> nat \<Rightarrow> on_close_cb \<Rightarrow> bool \<Rightarrow> exn + conn" where
  "TChannelOutOps_init cd nm s cb perform_handshake =
     (case (if perform_handshake then handshake cd (fresh_conn nm s cb)
            else (Inr None, fresh_conn nm s cb)) of
        (Inl e, c1) \<Rightarrow> Inl e
      | (Inr resp, c1) \<Rightarrow>
          Inr (c1\<lparr>futures := Map.empty, log := log c1 @ [SenderStart, ReceiverStart]\<rparr>))"

text \<open>\<^verbatim>\<open>closed()\<close> (the name \<open>closed\<close> is the enum member).\<close>

definition is_closed :: "conn \<Rightarrow> bool" where
  "is_closed c = (state c = closed)"

section \<open>Futures\<close>

text \<open>Modelled from the spec: the constructor \<^verbatim>\<open>SettableFuture()\<close> of
  tchannel/futures.py, which yields a new pending future.\<close>

definition SettableFuture :: "conn \<Rightarrow> nat \<times> conn" where
  "SettableFuture c =
     (next_future c,
      c\<lparr>fheap := (fheap c)(next_future c \<mapsto> Pending), next_future := Suc (next_future c)\<rparr>)"

text \<open>Modelled from the spec: \<^verbatim>\<open>SettableFuture.set_result\<close> of tchannel/futures.py.
  The future is single-resolution: a pending future takes the result, a resolved one
  keeps what it holds.\<close>

definition set_result :: "nat \<Rightarrow> response \<Rightarrow> conn \<Rightarrow> conn" where
  "set_result f r c =
     (case fheap c f of
        Some Pending \<Rightarrow> c\<lparr>fheap := (fheap c)(f \<mapsto> Result r)\<rparr>
      | _ \<Rightarrow> c)"

text \<open>Modelled from the spec: \<^verbatim>\<open>transform_future\<close> of tchannel/futures.py. The
  future it returns resolves when the given one does: with the function's value, with
  the exception the function raises, or with the exception the given future failed
  with.\<close>

definition transform_future ::
  "future_state \<Rightarrow> (response \<Rightarrow> exn + response) \<Rightarrow> future_state" where
  "transform_future f g =
     (case f of
        Pending \<Rightarrow> Pending
      | Exception e \<Rightarrow> Exception e
      | Result r \<Rightarrow> (case g r of Inl e \<Rightarrow> Exception e | Inr v \<Rightarrow> Result v))"

text \<open>Modelled from the spec: the blocking \<^verbatim>\<open>result()\<close> of a future. \<open>None\<close> is a
  caller that is still blocked.\<close>

definition result :: "future_state \<Rightarrow> (exn + response) option" where
  "result f =
     (case f of Pending \<Rightarrow> None | Exception e \<Rightarrow> Some (Inl e) | Result r \<Rightarrow> Some (Inr r))"

section \<open>The call contract\<close>

text \<open>\<^verbatim>\<open>_submit\<close>: put a request at the end of the outbound queue.\<close>

definition submit :: "message option \<Rightarrow> nat \<Rightarrow> conn \<Rightarrow> conn" where
  "submit m f c = c\<lparr>outstanding := outstanding c @ [Some \<lparr>message = m, future = f\<rparr>]\<rparr>"

text \<open>The inner function \<^verbatim>\<open>handle_response\<close> of \<^verbatim>\<open>send\<close>.\<close>

definition handle_response :: "response \<Rightarrow> exn + response" where
  "handle_response r =
     (if code r \<noteq> 0
      then Inl (TChannelApplicationException (code r) (arg_1 r) (arg_2 r) (arg_3 r))
      else Inr r)"

text \<open>
  \<^verbatim>\<open>send\<close> up to the point where the request is on the queue: the assertion, the
  message, the future and \<^verbatim>\<open>_submit\<close>. The \<^verbatim>\<open>service\<close> argument is not used by the
  source. The value returned here is the address of \<^verbatim>\<open>future\<close>.
\<close>

definition send :: "bytes \<Rightarrow> bytes \<Rightarrow> bytes \<Rightarrow> conn \<Rightarrow> (exn + nat) \<times> conn" where
  "send a1 a2 a3 c =
     (if state c \<noteq> ready
      then (Inl (AssertionError ''Handshake not performed or connection closed''), c)
      else
        (case SettableFuture c of
           (fut, c1) \<Rightarrow> (Inr fut, submit (Some (CallRequestMessage a1 a2 a3)) fut c1)))"

text \<open>\<^verbatim>\<open>result_future = transform_future(future, handle_response)\<close>, read in a later
  state of the connection.\<close>

definition result_future :: "conn \<Rightarrow> nat \<Rightarrow> future_state" where
  "result_future c f =
     (case fheap c f of
        None \<Rightarrow> Pending
      | Some s \<Rightarrow> transform_future s handle_response)"

text \<open>
  What \<^verbatim>\<open>send\<close> hands to its caller: with \<^verbatim>\<open>async\<close> the result future itself,
  otherwise the outcome of \<^verbatim>\<open>result_future.result()\<close>, which returns, raises or is
  still blocked.
\<close>

datatype delivery = Deferred future_state | Returns response | Raises exn | Blocked

definition send_delivery :: "bool \<Rightarrow> conn \<Rightarrow> nat \<Rightarrow> delivery" where
  "send_delivery async c f =
     (if async then Deferred (result_future c f)
      else (case result (result_future c f) of
              None \<Rightarrow> Blocked
            | Some (Inl e) \<Rightarrow> Raises e
            | Some (Inr r) \<Rightarrow> Returns r))"

section \<open>The sender and receiver loops\<close>

text \<open>How a loop stands: still running, left through \<^verbatim>\<open>break\<close> or its condition, or
  ended by an exception that nothing catches.\<close>

datatype loop_status = Running | Exited | Crashed exn

text \<open>
  The body of the \<^verbatim>\<open>while\<close> of \<^verbatim>\<open>_start_sender\<close>. An empty queue is the
  \<^verbatim>\<open>queue.Empty\<close> of the bounded wait, followed by \<^verbatim>\<open>continue\<close>.
\<close>

definition sender_iteration :: "codec \<Rightarrow> conn \<Rightarrow> loop_status \<times> conn" where
  "sender_iteration cd c =
     (case outstanding c of
        [] \<Rightarrow> (Running, c)
      | None # q \<Rightarrow> (Exited, c\<lparr>outstanding := q\<rparr>)
      | Some request # q \<Rightarrow>
          (case message request of
             None \<Rightarrow> (Exited, c\<lparr>outstanding := q\<rparr>)
           | Some msg \<Rightarrow>
               (case next_message_id (c\<lparr>outstanding := q\<rparr>) of
                  (msg_id, c1) \<Rightarrow>
                    let c2 = c1\<lparr>futures := (futures c1)(msg_id \<mapsto> future request)\<rparr>;
                        c3 = c2\<lparr>log := log c2 @ [FrameAndWrite msg msg_id]\<rparr>
                    in (case frame_and_write cd msg msg_id of
                          Some e \<Rightarrow> (Crashed e, c3)
                        | None \<Rightarrow> (Running, c3)))))"

text \<open>\<^verbatim>\<open>_start_sender\<close>, for at most the given number of iterations: the loop polls
  for as long as the connection is open, so it need not end.\<close>

fun start_sender :: "codec \<Rightarrow> nat \<Rightarrow> conn \<Rightarrow> loop_status \<times> conn" where
  "start_sender cd 0 c = (Running, c)"
| "start_sender cd (Suc n) c =
     (if is_closed c then (Exited, c)
      else (case sender_iteration cd c of
              (Running, c') \<Rightarrow> start_sender cd n c'
            | (Exited, c') \<Rightarrow> (Exited, c')
            | (Crashed e, c') \<Rightarrow> (Crashed e, c')))"

text \<open>The body of the \<^verbatim>\<open>while\<close> of \<^verbatim>\<open>_start_receiver\<close>, given what
  \<^verbatim>\<open>await()\<close> does. Only \<^verbatim>\<open>socket.timeout\<close> is caught; a missing key of the
  dictionary lookup is a \<^verbatim>\<open>KeyError\<close>.\<close>

definition receiver_iteration :: "await_result \<Rightarrow> conn \<Rightarrow> loop_status \<times> conn" where
  "receiver_iteration a c =
     (case a of
        AwaitRaises e \<Rightarrow> (if e = SocketTimeout then (Running, c) else (Crashed e, c))
      | EndOfStream \<Rightarrow> (Exited, c)
      | Frame message_id msg \<Rightarrow>
          (case futures c message_id of
             None \<Rightarrow> (Crashed (KeyError message_id), c)
           | Some f \<Rightarrow> (Running, set_result f msg c)))"

text \<open>\<^verbatim>\<open>_start_receiver\<close> over the successive outcomes of \<^verbatim>\<open>await()\<close>. With no
  outcome left the loop is at its condition, or waiting in \<^verbatim>\<open>await()\<close>.\<close>

fun start_receiver :: "await_result list \<Rightarrow> conn \<Rightarrow> loop_status \<times> conn" where
  "start_receiver [] c = (if is_closed c then Exited else Running, c)"
| "start_receiver (a # as) c =
     (if is_closed c then (Exited, c)
      else (case receiver_iteration a c of
              (Running, c') \<Rightarrow> start_receiver as c'
            | (Exited, c') \<Rightarrow> (Exited, c')
            | (Crashed e, c') \<Rightarrow> (Crashed e, c')))"

section \<open>The registry and the objects it shares\<close>

text \<open>
  \<^verbatim>\<open>OutgoingTChannel\<close> together with the objects it refers to. \<open>connections\<close> is
  the dictionary \<^verbatim>\<open>_connections\<close>, from (host, port) to a connection object; the
  objects are in \<open>store\<close> under their addresses, so that \<^verbatim>\<open>is\<close> is equality of
  addresses and a connection is one object however many references to it exist.
  \<open>socks\<close> holds the socket objects (\<open>True\<close> for an open one). The dictionary is an
  association list, its order being the order in which \<^verbatim>\<open>values()\<close> lists it.
\<close>

record world =
  reg_name :: string
  connections :: "((string \<times> int) \<times> nat) list"
  store :: "nat \<rightharpoonup> conn"
  next_addr :: nat
  socks :: "nat \<rightharpoonup> bool"
  next_sock :: nat

text \<open>\<^verbatim>\<open>_on_conn_close\<close>: under the lock, delete the entry of the key if it is this
  very connection object.\<close>

definition on_conn_close :: "string \<Rightarrow> int \<Rightarrow> nat \<Rightarrow> world \<Rightarrow> world" where
  "on_conn_close host port connection w =
     (case map_of (connections w) (host, port) of
        None \<Rightarrow> w
      | Some a \<Rightarrow>
          if a = connection
          then w\<lparr>connections := AList.delete (host, port) (connections w)\<rparr>
          else w)"

text \<open>\<^verbatim>\<open>self._on_close(self)\<close> for the two callbacks of this file.\<close>

definition run_on_close :: "on_close_cb \<Rightarrow> nat \<Rightarrow> world \<Rightarrow> world" where
  "run_on_close cb a w =
     (case cb of
        Identity \<Rightarrow> w
      | OnConnClose host port \<Rightarrow> on_conn_close host port a w)"

text \<open>
  What the operations that \<^verbatim>\<open>close\<close> calls outside this file do: each of
  \<^verbatim>\<open>self._sender.join()\<close>, \<^verbatim>\<open>self._sock.close()\<close> and
  \<^verbatim>\<open>self._receiver.join()\<close> returns or raises. (The socket of a connection is
  whatever object its constructor was given, and \<^verbatim>\<open>OutgoingTChannel.close\<close>
  expects \<^verbatim>\<open>socket.error\<close> from closing a connection.)
\<close>

record close_env =
  sender_join :: "exn option"
  sock_close :: "exn option"
  receiver_join :: "exn option"

text \<open>
  \<^verbatim>\<open>TChannelOutOps.close\<close> on the connection at address \<open>a\<close>. Every step is
  written to the log of the connection before the next one runs; an exception ends the
  call where it is raised. (An address outside the store does not occur: a Python
  reference always has its object.)
\<close>

definition close :: "close_env \<Rightarrow> nat \<Rightarrow> world \<Rightarrow> exn option \<times> world" where
  "close env a w =
     (case store w a of
        None \<Rightarrow> (None, w)
      | Some c \<Rightarrow>
          if is_closed c then (None, w)
          else
            let c1 = c\<lparr>state := closed, log := log c @ [SetState closed]\<rparr>;
                c2 = c1\<lparr>outstanding := outstanding c1 @ [None], log := log c1 @ [PutPoison]\<rparr>;
                c3 = c2\<lparr>log := log c2 @ [SenderJoin]\<rparr>
            in (case sender_join env of
                  Some e \<Rightarrow> (Some e, w\<lparr>store := (store w)(a \<mapsto> c3)\<rparr>)
                | None \<Rightarrow>
                    let c4 = c3\<lparr>log := log c3 @ [SockClose]\<rparr>
                    in (case sock_close env of
                          Some e \<Rightarrow> (Some e, w\<lparr>store := (store w)(a \<mapsto> c4)\<rparr>)
                        | None \<Rightarrow>
                            let c5 = c4\<lparr>log := log c4 @ [ReceiverJoin]\<rparr>;
                                w5 = w\<lparr>socks := (socks w)(sock c \<mapsto> False)\<rparr>
                            in (case receiver_join env of
                                  Some e \<Rightarrow> (Some e, w5\<lparr>store := (store w5)(a \<mapsto> c5)\<rparr>)
                                | None \<Rightarrow>
                                    let c6 = c5\<lparr>log := log c5 @ [OnClose]\<rparr>
                                    in (None,
                                        run_on_close (on_close c) a
                                          (w5\<lparr>store := (store w5)(a \<mapsto> c6)\<rparr>))))))"

text \<open>The loop of \<^verbatim>\<open>OutgoingTChannel.close\<close> over the list that \<^verbatim>\<open>values()\<close>
  returned: \<^verbatim>\<open>socket.error\<close> is caught and passed over, anything else leaves the
  loop.\<close>

fun close_each :: "(nat \<Rightarrow> close_env) \<Rightarrow> nat list \<Rightarrow> world \<Rightarrow> exn option \<times> world" where
  "close_each env [] w = (None, w)"
| "close_each env (a # as) w =
     (case close (env a) a w of
        (None, w') \<Rightarrow> close_each env as w'
      | (Some e, w') \<Rightarrow>
          if is_socket_error e then close_each env as w' else (Some e, w'))"

text \<open>\<^verbatim>\<open>OutgoingTChannel.close\<close>. In Python 2 \<^verbatim>\<open>values()\<close> is a list made before
  the loop starts, so the deletions of the close callbacks do not disturb it.\<close>

definition registry_close :: "(nat \<Rightarrow> close_env) \<Rightarrow> world \<Rightarrow> exn option \<times> world" where
  "registry_close env w = close_each env (map snd (connections w)) w"

section \<open>Getting a connection\<close>

text \<open>
  \<^verbatim>\<open>_get_connection\<close> in the three stretches between which other requests can run.
  First the assertions and the lookup without the lock: an error, the connection found,
  or nothing.
\<close>

definition get_connection_fast :: "string \<Rightarrow> int \<Rightarrow> world \<Rightarrow> exn + nat option" where
  "get_connection_fast host port w =
     (if host = [] then Inl (AssertionError ''host is required'')
      else if port = 0 then Inl (AssertionError ''port is required'')
      else Inr (map_of (connections w) (host, port)))"

text \<open>Then the socket: created, connected (which may raise) and given its timeout.\<close>

definition open_socket :: "exn option \<Rightarrow> world \<Rightarrow> (exn + nat) \<times> world" where
  "open_socket connect_raises w =
     (let s = next_sock w;
          w1 = w\<lparr>socks := (socks w)(s \<mapsto> True), next_sock := Suc s\<rparr>
      in (case connect_raises of
            Some e \<Rightarrow> (Inl e, w1)
          | None \<Rightarrow> (Inr s, w1)))"

text \<open>
  Then the block under the lock: if the key is in the dictionary by now, close the
  socket and return what is there; otherwise construct the connection (the handshake
  may raise, and then nothing is installed) and install it. The socket closed here is
  the \<^verbatim>\<open>socket.socket\<close> made a few lines above, whose \<^verbatim>\<open>close()\<close> in Python 2
  only drops the underlying descriptor and does not raise.
\<close>

definition get_connection_locked ::
  "codec \<Rightarrow> string \<Rightarrow> int \<Rightarrow> nat \<Rightarrow> world \<Rightarrow> (exn + nat) \<times> world" where
  "get_connection_locked cd host port s w =
     (case map_of (connections w) (host, port) of
        Some a \<Rightarrow> (Inr a, w\<lparr>socks := (socks w)(s \<mapsto> False)\<rparr>)
      | None \<Rightarrow>
          (case TChannelOutOps_init cd (reg_name w) s (OnConnClose host port) True of
             Inl e \<Rightarrow> (Inl e, w)
           | Inr c \<Rightarrow>
               (Inr (next_addr w),
                w\<lparr>store := (store w)(next_addr w \<mapsto> c),
                  next_addr := Suc (next_addr w),
                  connections := AList.update (host, port) (next_addr w) (connections w)\<rparr>)))"

text \<open>One call of \<^verbatim>\<open>_get_connection\<close>: its arguments, what the network does for
  it, and where it stands.\<close>

datatype pc = AtStart | Connecting | Opened nat | Returned nat | Failed exn

record call =
  req_host :: string
  req_port :: int
  connect_raises :: "exn option"
  peer :: codec
  at :: pc

text \<open>The next stretch of one call.\<close>

definition call_step :: "call \<Rightarrow> world \<Rightarrow> world \<times> call" where
  "call_step t w =
     (case at t of
        AtStart \<Rightarrow>
          (case get_connection_fast (req_host t) (req_port t) w of
             Inl e \<Rightarrow> (w, t\<lparr>at := Failed e\<rparr>)
           | Inr (Some a) \<Rightarrow> (w, t\<lparr>at := Returned a\<rparr>)
           | Inr None \<Rightarrow> (w, t\<lparr>at := Connecting\<rparr>))
      | Connecting \<Rightarrow>
          (case open_socket (connect_raises t) w of
             (Inl e, w') \<Rightarrow> (w', t\<lparr>at := Failed e\<rparr>)
           | (Inr s, w') \<Rightarrow> (w', t\<lparr>at := Opened s\<rparr>))
      | Opened s \<Rightarrow>
          (case get_connection_locked (peer t) (req_host t) (req_port t) s w of
             (Inl e, w') \<Rightarrow> (w', t\<lparr>at := Failed e\<rparr>)
           | (Inr a, w') \<Rightarrow> (w', t\<lparr>at := Returned a\<rparr>))
      | Returned a \<Rightarrow> (w, t)
      | Failed e \<Rightarrow> (w, t))"

text \<open>Concurrent calls: the schedule names, step by step, the call that runs its next
  stretch.\<close>

definition step :: "nat \<Rightarrow> world \<times> call list \<Rightarrow> world \<times> call list" where
  "step i sys =
     (case sys of (w, ts) \<Rightarrow>
        if i < length ts
        then (case call_step (ts ! i) w of (w', t') \<Rightarrow> (w', ts[i := t']))
        else (w, ts))"

fun run :: "nat list \<Rightarrow> world \<times> call list \<Rightarrow> world \<times> call list" where
  "run [] sys = sys"
| "run (i # sched) sys = run sched (step i sys)"

text \<open>\<^verbatim>\<open>_get_connection\<close> with nothing running in between.\<close>

definition get_connection ::
  "exn option \<Rightarrow> codec \<Rightarrow> string \<Rightarrow> int \<Rightarrow> world \<Rightarrow> (exn + nat) \<times> world" where
  "get_connection cr cd host port w =
     (case get_connection_fast host port w of
        Inl e \<Rightarrow> (Inl e, w)
      | Inr (Some a) \<Rightarrow> (Inr a, w)
      | Inr None \<Rightarrow>
          (case open_socket cr w of
             (Inl e, w1) \<Rightarrow> (Inl e, w1)
           | (Inr s, w1) \<Rightarrow> get_connection_locked cd host port s w1))"

section \<open>Concrete states\<close>

text \<open>A peer that accepts everything, and one whose codec cannot frame the message
  \<^verbatim>\<open>('bad', '', '')\<close>.\<close>

definition ok_codec :: codec where
  "ok_codec =
     \<lparr>initiate_handshake = None, await_handshake_reply = Inr ''ack'',
      frame_and_write = (\<lambda>m i. None)\<rparr>"

definition strict_codec :: codec where
  "strict_codec =
     \<lparr>initiate_handshake = None, await_handshake_reply = Inr ''ack'',
      frame_and_write =
        (\<lambda>m i. if m = CallRequestMessage ''bad'' [] []
                then Some (EncodingError ''bad'') else None)\<rparr>"

text \<open>A connection after a successful handshake, with nothing in flight.\<close>

definition ready_conn :: conn where
  "ready_conn = (fresh_conn ''client'' 0 Identity)\<lparr>state := ready\<rparr>"

text \<open>The response of the spec's example: arguments \<^verbatim>\<open>(b"e", b"f", b"g")\<close> and the
  given status code.\<close>

definition resp :: "int \<Rightarrow> response" where
  "resp k = \<lparr>code = k, arg_1 = ''e'', arg_2 = ''f'', arg_3 = ''g''\<rparr>"

text \<open>One call from \<open>ready_conn\<close>: \<^verbatim>\<open>send\<close>, one round of the sender loop, and the
  receiver loop reading the frame that answers identifier 1.\<close>

definition round_trip :: "response \<Rightarrow> conn" where
  "round_trip r =
     snd (start_receiver [Frame 1 r]
       (snd (start_sender ok_codec 1 (snd (send ''a'' ''b'' ''c'' ready_conn)))))"

text \<open>Two calls queued on \<open>ready_conn\<close>, the first one with the message that cannot be
  framed.\<close>

definition two_queued :: conn where
  "two_queued = snd (send ''good'' [] [] (snd (send ''bad'' [] [] ready_conn)))"

text \<open>A connection with one call in flight under identifier 1.\<close>

definition one_pending :: conn where
  "one_pending = ready_conn\<lparr>futures := [1 \<mapsto> 0], fheap := [0 \<mapsto> Pending], next_future := 1\<rparr>"

text \<open>What a connection's \<^verbatim>\<open>close\<close> can raise is confined to \<^verbatim>\<open>socket.error\<close>
  when each of the three outside operations raises nothing else.\<close>

definition raises_only_socket_errors :: "close_env \<Rightarrow> bool" where
  "raises_only_socket_errors env =
     ((case sender_join env of None \<Rightarrow> True | Some e \<Rightarrow> is_socket_error e)
      \<and> (case sock_close env of None \<Rightarrow> True | Some e \<Rightarrow> is_socket_error e)
      \<and> (case receiver_join env of None \<Rightarrow> True | Some e \<Rightarrow> is_socket_error e))"

text \<open>Every call that has returned holds the connection the dictionary has for its key.\<close>

definition returned_agree :: "world \<Rightarrow> call list \<Rightarrow> bool" where
  "returned_agree w ts =
     (\<forall>t \<in> set ts. \<forall>a. at t = Returned a \<longrightarrow>
        map_of (connections w) (req_host t, req_port t) = Some a)"

text \<open>A registry with no connection yet, and the one reached from it by requesting
  \<^verbatim>\<open>('a', 1)\<close> and then \<^verbatim>\<open>('b', 2)\<close> with a peer that accepts the handshake.\<close>

definition empty_world :: world where
  "empty_world =
     \<lparr>reg_name = ''client'', connections = [], store = Map.empty, next_addr = 0,
      socks = Map.empty, next_sock = 0\<rparr>"

definition two_conn_world :: world where
  "two_conn_world =
     snd (get_connection None ok_codec ''b'' 2
       (snd (get_connection None ok_codec ''a'' 1 empty_world)))"

text \<open>Nothing raises while a connection closes; the receiver thread of the connection
  at address 0 cannot be joined; the socket of that connection fails to close.\<close>

definition quiet :: close_env where
  "quiet = \<lparr>sender_join = None, sock_close = None, receiver_join = None\<rparr>"

definition join_fails :: "nat \<Rightarrow> close_env" where
  "join_fails a =
     (if a = 0
      then quiet\<lparr>receiver_join := Some (RuntimeError ''cannot join current thread'')\<rparr>
      else quiet)"

definition sock_fails :: "nat \<Rightarrow> close_env" where
  "sock_fails a = (if a = 0 then quiet\<lparr>sock_close := Some SocketError\<rparr> else quiet)"

text \<open>Two calls for the same destination, neither started.\<close>

definition two_calls :: "call list" where
  "two_calls =
     [\<lparr>req_host = ''a'', req_port = 1, connect_raises = None, peer = ok_codec,
        at = AtStart\<rparr>,
      \<lparr>req_host = ''a'', req_port = 1, connect_raises = None, peer = ok_codec,
        at = AtStart\<rparr>]"

text \<open>A registry in which the key \<^verbatim>\<open>('a', 1)\<close> holds the object at address 1, while
  an object with the same fields lives at address 0.\<close>

definition replaced_world :: world where
  "replaced_world =
     \<lparr>reg_name = ''client'', connections = [((''a'', 1), 1)],
      store = [0 \<mapsto> (fresh_conn ''client'' 0 (OnConnClose ''a'' 1))\<lparr>state := ready\<rparr>,
               1 \<mapsto> (fresh_conn ''client'' 0 (OnConnClose ''a'' 1))\<lparr>state := ready\<rparr>],
      next_addr = 2, socks = [0 \<mapsto> True], next_sock = 1\<rparr>"


text \<open>The connection that the registry of \<open>empty_world\<close> constructs on socket \<open>s\<close> for
  a destination, once the peer has accepted the handshake.\<close>

definition handshaken :: "nat \<Rightarrow> string \<Rightarrow> int \<Rightarrow> conn" where
  "handshaken s host port =
     \<lparr>name = ''client'', sock = s, state = ready, outstanding = [],
      on_close = OnConnClose host port, id_counter = 0, futures = Map.empty,
      fheap = Map.empty, next_future = 0,
      log = [InitiateHandshake ''0.0.0.0:0'' ''client'', AwaitHandshakeReply,
             SenderStart, ReceiverStart]\<rparr>"

text \<open>The schedule of a race: both calls look up, both open a socket, then each takes
  the lock in turn.\<close>

definition race :: "nat list" where
  "race = [0, 1, 0, 1, 0, 1]"

section \<open>Properties of the identifier allocator\<close>

lemma allocate_lower_bound:
  "i \<in> set (fst (allocate n c)) \<Longrightarrow> id_counter c < i"
proof (induction n arbitrary: c i)
  case 0
  then show ?case by simp
next
  case (Suc n)
  let ?c1 = "c\<lparr>id_counter := id_counter c + 1\<rparr>"
  from Suc.prems have "i = id_counter c + 1 \<or> i \<in> set (fst (allocate n ?c1))"
    by (auto simp: next_message_id_def Let_def split: prod.splits)
  then show ?case
  proof
    assume "i = id_counter c + 1"
    then show ?thesis by simp
  next
    assume "i \<in> set (fst (allocate n ?c1))"
    from Suc.IH [OF this] show ?thesis by simp
  qed
qed

lemma allocate_increasing: "sorted_wrt (<) (fst (allocate n c))"
proof (induction n arbitrary: c)
  case 0
  show ?case by simp
next
  case (Suc n)
  let ?c1 = "c\<lparr>id_counter := id_counter c + 1\<rparr>"
  have step: "fst (allocate (Suc n) c) = (id_counter c + 1) # fst (allocate n ?c1)"
    by (simp add: next_message_id_def Let_def split: prod.splits)
  have "\<forall>j \<in> set (fst (allocate n ?c1)). id_counter c + 1 < j"
    using allocate_lower_bound [of _ n ?c1] by auto
  with Suc.IH [of ?c1] step show ?case by simp
qed

text \<open>
  C5. The identifiers returned by any number of successive invocations of
  \<^verbatim>\<open>_next_message_id\<close> on one connection are strictly increasing, each greater than
  the one before, and hence pairwise distinct.
\<close>

theorem next_message_id_strictly_increasing:
  "sorted_wrt (<) (fst (allocate n c)) \<and> distinct (fst (allocate n c))"
proof -
  have inc: "sorted_wrt (<) (fst (allocate n c))"
    by (rule allocate_increasing)
  then have "distinct (fst (allocate n c))"
    by (simp add: strict_sorted_iff)
  with inc show ?thesis by simp
qed

theorem next_message_id_strictly_increasing_witness:
  "fst (allocate 3 (fresh_conn ''client'' 0 Identity)) = [1, 2, 3]
   \<and> sorted_wrt (<) (fst (allocate 3 (fresh_conn ''client'' 0 Identity)))
   \<and> distinct (fst (allocate 3 (fresh_conn ''client'' 0 Identity)))"
  using next_message_id_strictly_increasing [of 3 "fresh_conn ''client'' 0 Identity"]
  by (simp add: numeral_3_eq_3 next_message_id_def fresh_conn_def)

section \<open>Properties of the receiver loop\<close>

text \<open>
  C1. A frame whose message identifier has no entry in the pending-call table should be
  dropped while the receiver loop goes on. In the code the dictionary lookup raises
  \<^verbatim>\<open>KeyError\<close>, which nothing catches: with identifier 1 pending, a frame for
  identifier 7 ends the loop with that exception, and the frame for identifier 1 behind
  it is never read, so the pending future stays unresolved.
\<close>

theorem start_receiver_unknown_id_crashes:
  "start_receiver [Frame 7 (resp 0), Frame 1 (resp 0)] one_pending
     = (Crashed (KeyError 7), one_pending)
   \<and> futures one_pending 7 = None
   \<and> fheap one_pending 0 = Some Pending"
  by (simp add: one_pending_def ready_conn_def fresh_conn_def is_closed_def
      receiver_iteration_def)

section \<open>Properties of the sender loop\<close>

text \<open>
  C2, as stated, fails: when \<^verbatim>\<open>frame_and_write\<close> raises for the first of two queued
  requests, the sender loop ends with that exception instead of going on, the future of
  the request is still pending, not failed, and the second request is still on the queue.
\<close>

theorem start_sender_encoding_error_counterexample:
  "fst (start_sender strict_codec 5 two_queued) = Crashed (EncodingError ''bad'')
   \<and> fheap (snd (start_sender strict_codec 5 two_queued)) 0 = Some Pending
   \<and> outstanding (snd (start_sender strict_codec 5 two_queued))
       = [Some \<lparr>message = Some (CallRequestMessage ''good'' [] []), future = 1\<rparr>]"
  by (simp add: two_queued_def send_def ready_conn_def fresh_conn_def SettableFuture_def
      submit_def is_closed_def sender_iteration_def next_message_id_def strict_codec_def
      eval_nat_numeral)

text \<open>
  C2, amended. When the sender loop takes a request from the queue and
  \<^verbatim>\<open>frame_and_write\<close> raises for its message, the exception leaves the loop: the loop
  ends with it. By then the request has its new identifier and its future is in the
  pending-call table under it; the store of futures is as before, so the future is not
  resolved, and the rest of the queue is unread.
\<close>

theorem start_sender_encoding_error_propagates:
  assumes "state c \<noteq> closed"
    and "outstanding c = Some rq # rest"
    and "message rq = Some m"
    and "frame_and_write cd m (id_counter c + 1) = Some e"
  shows "start_sender cd (Suc n) c =
     (Crashed e,
      c\<lparr>outstanding := rest, id_counter := id_counter c + 1,
        futures := (futures c)(id_counter c + 1 \<mapsto> future rq),
        log := log c @ [FrameAndWrite m (id_counter c + 1)]\<rparr>)"
  using assms
  by (simp add: is_closed_def sender_iteration_def next_message_id_def Let_def)

theorem start_sender_encoding_error_propagates_witness:
  "start_sender strict_codec (Suc 0) two_queued =
     (Crashed (EncodingError ''bad''),
      two_queued\<lparr>outstanding :=
          [Some \<lparr>message = Some (CallRequestMessage ''good'' [] []), future = 1\<rparr>],
        id_counter := 1, futures := [1 \<mapsto> 0],
        log := [FrameAndWrite (CallRequestMessage ''bad'' [] []) 1]\<rparr>)"
proof -
  have h1: "state two_queued \<noteq> closed"
    by (simp add: two_queued_def send_def ready_conn_def fresh_conn_def
        SettableFuture_def submit_def)
  have h2: "outstanding two_queued =
      Some \<lparr>message = Some (CallRequestMessage ''bad'' [] []), future = 0\<rparr>
      # [Some \<lparr>message = Some (CallRequestMessage ''good'' [] []), future = 1\<rparr>]"
    by (simp add: two_queued_def send_def ready_conn_def fresh_conn_def
        SettableFuture_def submit_def)
  have h3: "message \<lparr>message = Some (CallRequestMessage ''bad'' [] []), future = 0\<rparr>
      = Some (CallRequestMessage ''bad'' [] [])"
    by simp
  have h4: "frame_and_write strict_codec (CallRequestMessage ''bad'' [] [])
      (id_counter two_queued + 1) = Some (EncodingError ''bad'')"
    by (simp add: strict_codec_def)
  have h5: "id_counter two_queued = 0 \<and> futures two_queued = Map.empty
      \<and> log two_queued = []"
    by (simp add: two_queued_def send_def ready_conn_def fresh_conn_def
        SettableFuture_def submit_def)
  show ?thesis
    using start_sender_encoding_error_propagates [OF h1 h2 h3 h4, of 0] h5 by simp
qed

section \<open>Properties of the call contract\<close>

text \<open>
  C3. Once the future of a call holds a response: if the status code of the response is
  not zero, the blocking \<^verbatim>\<open>send\<close> raises, and the future of the deferred
  \<^verbatim>\<open>send\<close> fails with, a \<^verbatim>\<open>TChannelApplicationException\<close> that carries this code
  and the three arguments of the response; if the code is zero, \<^verbatim>\<open>send\<close> returns the
  response (or its future holds it) as it is.
\<close>

theorem send_resolution:
  assumes "fheap c f = Some (Result r)"
  shows "(code r \<noteq> 0 \<longrightarrow>
            send_delivery False c f =
              Raises (TChannelApplicationException (code r) (arg_1 r) (arg_2 r) (arg_3 r))
            \<and> send_delivery True c f =
              Deferred (Exception
                (TChannelApplicationException (code r) (arg_1 r) (arg_2 r) (arg_3 r))))
         \<and> (code r = 0 \<longrightarrow>
            send_delivery False c f = Returns r
            \<and> send_delivery True c f = Deferred (Result r))"
  using assms
  by (simp add: send_delivery_def result_future_def transform_future_def
      handle_response_def result_def)

lemma round_trip_resolves: "fheap (round_trip r) 0 = Some (Result r)"
  by (simp add: round_trip_def send_def ready_conn_def fresh_conn_def SettableFuture_def
      submit_def is_closed_def sender_iteration_def next_message_id_def ok_codec_def
      receiver_iteration_def set_result_def)

theorem send_resolution_witness:
  "fheap (round_trip (resp 1)) 0 = Some (Result (resp 1))
   \<and> send_delivery False (round_trip (resp 1)) 0
       = Raises (TChannelApplicationException 1 ''e'' ''f'' ''g'')
   \<and> send_delivery True (round_trip (resp 1)) 0
       = Deferred (Exception (TChannelApplicationException 1 ''e'' ''f'' ''g''))
   \<and> fheap (round_trip (resp 0)) 0 = Some (Result (resp 0))
   \<and> send_delivery False (round_trip (resp 0)) 0
       = Returns \<lparr>code = 0, arg_1 = ''e'', arg_2 = ''f'', arg_3 = ''g''\<rparr>
   \<and> send_delivery True (round_trip (resp 0)) 0
       = Deferred (Result \<lparr>code = 0, arg_1 = ''e'', arg_2 = ''f'', arg_3 = ''g''\<rparr>)"
  using send_resolution [OF round_trip_resolves [of "resp 1"]]
    send_resolution [OF round_trip_resolves [of "resp 0"]]
    round_trip_resolves [of "resp 1"] round_trip_resolves [of "resp 0"]
  by (simp add: resp_def)

text \<open>
  C4. On a connection whose state is not \<open>ready\<close> (\<open>init\<close> before the handshake,
  \<open>closed\<close> after the close) \<^verbatim>\<open>send\<close> fails at once with the assertion error, and
  the connection is exactly as before: nothing is put on the outbound queue and no
  future is created.
\<close>

theorem send_requires_ready:
  "state c \<noteq> ready \<Longrightarrow>
     send a1 a2 a3 c
       = (Inl (AssertionError ''Handshake not performed or connection closed''), c)"
  by (simp add: send_def)

theorem send_requires_ready_witness:
  "state (ready_conn\<lparr>state := closed\<rparr>) \<noteq> ready
   \<and> send ''a'' ''b'' ''c'' (ready_conn\<lparr>state := closed\<rparr>)
       = (Inl (AssertionError ''Handshake not performed or connection closed''),
          ready_conn\<lparr>state := closed\<rparr>)
   \<and> outstanding (snd (send ''a'' ''b'' ''c'' (ready_conn\<lparr>state := closed\<rparr>))) = []
   \<and> state (fresh_conn ''client'' 0 Identity) \<noteq> ready
   \<and> send ''a'' ''b'' ''c'' (fresh_conn ''client'' 0 Identity)
       = (Inl (AssertionError ''Handshake not performed or connection closed''),
          fresh_conn ''client'' 0 Identity)"
proof -
  have h1: "state (ready_conn\<lparr>state := closed\<rparr>) \<noteq> ready" by simp
  have h2: "state (fresh_conn ''client'' 0 Identity) \<noteq> ready"
    by (simp add: fresh_conn_def)
  have q: "outstanding (ready_conn\<lparr>state := closed\<rparr>) = []"
    by (simp add: ready_conn_def fresh_conn_def)
  show ?thesis
    using send_requires_ready [OF h1, of "''a''" "''b''" "''c''"]
      send_requires_ready [OF h2, of "''a''" "''b''" "''c''"] h1 h2 q
    by simp
qed

section \<open>Properties of the handshake\<close>

text \<open>
  C6. \<^verbatim>\<open>handshake\<close> on a connection that is already \<open>ready\<close> returns without
  calling the codec and without changing the connection, its state included; on a
  \<open>closed\<close> connection it fails with an exception (the \<^verbatim>\<open>AttributeError\<close> of the
  assertion's message), again without calling the codec or changing anything.
\<close>

theorem handshake_idempotent:
  "(state c = ready \<longrightarrow> handshake cd c = (Inr None, c))
   \<and> (state c = closed \<longrightarrow> handshake cd c = (Inl (AttributeError ''host''), c))"
  by (simp add: handshake_def)

theorem handshake_idempotent_witness:
  "state ready_conn = ready
   \<and> handshake ok_codec ready_conn = (Inr None, ready_conn)
   \<and> log (snd (handshake ok_codec ready_conn)) = []
   \<and> state (ready_conn\<lparr>state := closed\<rparr>) = closed
   \<and> handshake ok_codec (ready_conn\<lparr>state := closed\<rparr>)
       = (Inl (AttributeError ''host''), ready_conn\<lparr>state := closed\<rparr>)"
proof -
  have h1: "state ready_conn = ready"
    by (simp add: ready_conn_def)
  have l: "log ready_conn = []"
    by (simp add: ready_conn_def fresh_conn_def)
  have h2: "state (ready_conn\<lparr>state := closed\<rparr>) = closed" by simp
  show ?thesis
    using handshake_idempotent [of ready_conn ok_codec]
      handshake_idempotent [of "ready_conn\<lparr>state := closed\<rparr>" ok_codec] h1 h2 l
    by simp
qed

section \<open>Properties of the close callback\<close>

lemma store_on_conn_close [simp]: "store (on_conn_close h p a w) = store w"
  by (simp add: on_conn_close_def split: option.splits)

lemma store_run_on_close [simp]: "store (run_on_close cb a w) = store w"
  by (simp add: run_on_close_def split: on_close_cb.splits)

text \<open>
  C10. When the close callback runs for a key and a connection, the entry of the key is
  removed (and nothing else changes) if the dictionary holds that very object under the
  key; if it holds another object, however equal, or has no entry for the key, the
  registry is left as it is.
\<close>

theorem on_conn_close_identity:
  "(map_of (connections w) (host, port) = Some a \<longrightarrow>
      on_conn_close host port a w
        = w\<lparr>connections := AList.delete (host, port) (connections w)\<rparr>
      \<and> map_of (connections (on_conn_close host port a w))
          = (map_of (connections w))((host, port) := None))
   \<and> (map_of (connections w) (host, port) \<noteq> Some a \<longrightarrow> on_conn_close host port a w = w)"
  by (auto simp: on_conn_close_def delete_conv' split: option.splits)

theorem on_conn_close_identity_witness:
  "store replaced_world 0 = store replaced_world 1
   \<and> map_of (connections replaced_world) (''a'', 1) = Some 1
   \<and> on_conn_close ''a'' 1 0 replaced_world = replaced_world
   \<and> connections (on_conn_close ''a'' 1 1 replaced_world) = []
   \<and> map_of (connections replaced_world) (''z'', 9) = None
   \<and> on_conn_close ''z'' 9 1 replaced_world = replaced_world"
proof -
  have h: "map_of (connections replaced_world) (''a'', 1) = Some 1"
    by (simp add: replaced_world_def)
  have n: "map_of (connections replaced_world) (''z'', 9) = None"
    by (simp add: replaced_world_def)
  have s: "store replaced_world 0 = store replaced_world 1"
    by (simp add: replaced_world_def)
  have d: "AList.delete (''a'', 1) (connections replaced_world) = []"
    by (simp add: replaced_world_def AList.delete_eq)
  show ?thesis
    using on_conn_close_identity [of replaced_world "''a''" 1 1]
      on_conn_close_identity [of replaced_world "''a''" 1 0]
      on_conn_close_identity [of replaced_world "''z''" 9 1] h n s d
    by simp
qed

section \<open>Properties of closing a connection\<close>


lemma init_ok_codec:
  "TChannelOutOps_init ok_codec ''client'' s (OnConnClose h p) True
     = Inr (handshaken s h p)"
  by (simp add: TChannelOutOps_init_def handshake_def fresh_conn_def ok_codec_def
      handshaken_def Let_def)

lemma two_conn_world_eq:
  "two_conn_world =
     \<lparr>reg_name = ''client'', connections = [((''a'', 1), 0), ((''b'', 2), 1)],
      store = [0 \<mapsto> handshaken 0 ''a'' 1, 1 \<mapsto> handshaken 1 ''b'' 2],
      next_addr = 2, socks = [0 \<mapsto> True, 1 \<mapsto> True], next_sock = 2\<rparr>"
  by (simp add: two_conn_world_def get_connection_def get_connection_fast_def
      open_socket_def get_connection_locked_def init_ok_codec empty_world_def Let_def)





section \<open>Properties of closing the registry\<close>

lemma close_raises_socket_error:
  "raises_only_socket_errors env \<Longrightarrow> fst (close env a w) = Some e \<Longrightarrow> is_socket_error e"
  by (auto simp: close_def raises_only_socket_errors_def Let_def
      split: option.splits if_splits)

lemma close_keeps_closed:
  "store w b = Some c \<Longrightarrow> state c = closed \<Longrightarrow>
     \<exists>c'. store (snd (close env a w)) b = Some c' \<and> state c' = closed"
  by (auto simp: close_def Let_def is_closed_def split: option.splits)

lemma close_closes:
  "store w a = Some c \<Longrightarrow>
     \<exists>c'. store (snd (close env a w)) a = Some c' \<and> state c' = closed"
  by (auto simp: close_def Let_def is_closed_def split: option.splits)

lemma close_keeps_objects:
  "store w b = Some c \<Longrightarrow> \<exists>c'. store (snd (close env a w)) b = Some c'"
  by (auto simp: close_def Let_def is_closed_def split: option.splits)

lemma close_each_step:
  assumes "raises_only_socket_errors (env a)"
  shows "close_each env (a # as) w = close_each env as (snd (close (env a) a w))"
proof -
  obtain r w' where cl: "close (env a) a w = (r, w')"
    by (cases "close (env a) a w")
  show ?thesis
  proof (cases r)
    case None
    with cl show ?thesis by simp
  next
    case (Some e)
    with close_raises_socket_error [OF assms, of a w e] cl have "is_socket_error e"
      by simp
    with Some cl show ?thesis by simp
  qed
qed

lemma close_each_no_raise:
  "\<forall>a \<in> set as. raises_only_socket_errors (env a) \<Longrightarrow> fst (close_each env as w) = None"
proof (induction as arbitrary: w)
  case Nil
  show ?case by simp
next
  case (Cons a as)
  from Cons.prems have "raises_only_socket_errors (env a)" by simp
  then have "close_each env (a # as) w = close_each env as (snd (close (env a) a w))"
    by (rule close_each_step)
  moreover from Cons.prems have "fst (close_each env as (snd (close (env a) a w))) = None"
    by (intro Cons.IH) simp
  ultimately show ?case by simp
qed

lemma close_each_closes:
  "\<forall>a \<in> set as. raises_only_socket_errors (env a) \<Longrightarrow> store w b = Some c \<Longrightarrow>
   b \<in> set as \<or> state c = closed \<Longrightarrow>
     \<exists>c'. store (snd (close_each env as w)) b = Some c' \<and> state c' = closed"
proof (induction as arbitrary: w c)
  case Nil
  then show ?case by simp
next
  case (Cons a as)
  let ?w' = "snd (close (env a) a w)"
  from Cons.prems(1) have "raises_only_socket_errors (env a)" by simp
  then have go: "close_each env (a # as) w = close_each env as ?w'"
    by (rule close_each_step)
  have "\<exists>c1. store ?w' b = Some c1 \<and> (b \<in> set as \<or> state c1 = closed)"
  proof (cases "b = a \<or> state c = closed")
    case True
    then show ?thesis
      using close_closes [of w a c "env a"] close_keeps_closed [of w b c "env a" a]
        Cons.prems(2) by auto
  next
    case False
    with Cons.prems(3) have "b \<in> set as" by simp
    with close_keeps_objects [OF Cons.prems(2), of "env a" a] show ?thesis by auto
  qed
  then obtain c1 where c1: "store ?w' b = Some c1" "b \<in> set as \<or> state c1 = closed"
    by blast
  from Cons.prems(1) have "\<forall>a \<in> set as. raises_only_socket_errors (env a)" by simp
  from Cons.IH [OF this c1] go show ?case by simp
qed

lemma close_other_object:
  "a \<noteq> b \<Longrightarrow> store (snd (close env a w)) b = store w b"
  by (auto simp: close_def Let_def split: option.splits)

lemma close_raises:
  assumes "store w a = Some c" and "state c \<noteq> closed" and "sender_join env = None"
  shows "sock_close env = Some e \<Longrightarrow> fst (close env a w) = Some e"
    and "sock_close env = None \<Longrightarrow> receiver_join env = Some e \<Longrightarrow>
           fst (close env a w) = Some e"
  using assms by (simp_all add: close_def is_closed_def Let_def)

text \<open>
  C9, as stated, fails: the loop catches \<^verbatim>\<open>socket.error\<close> only. When the close of
  the first connection raises something else (here the \<^verbatim>\<open>RuntimeError\<close> of a join),
  the registry's \<^verbatim>\<open>close\<close> raises it and the second connection is never closed.
\<close>

theorem registry_close_counterexample:
  "map snd (connections two_conn_world) = [0, 1]
   \<and> fst (registry_close join_fails two_conn_world)
       = Some (RuntimeError ''cannot join current thread'')
   \<and> map_option state (store (snd (registry_close join_fails two_conn_world)) 1)
       = Some ready"
proof -
  let ?e = "RuntimeError ''cannot join current thread''"
  have vals: "map snd (connections two_conn_world) = [0, 1]"
    by (simp add: two_conn_world_eq)
  have s0: "store two_conn_world 0 = Some (handshaken 0 ''a'' 1)"
    by (simp add: two_conn_world_eq)
  have s1: "store two_conn_world 1 = Some (handshaken 1 ''b'' 2)"
    by (simp add: two_conn_world_eq)
  have op: "state (handshaken 0 ''a'' 1) \<noteq> closed"
    by (simp add: handshaken_def)
  have env: "sender_join (join_fails 0) = None" "sock_close (join_fails 0) = None"
    "receiver_join (join_fails 0) = Some ?e"
    by (simp_all add: join_fails_def quiet_def)
  obtain r w' where cl: "close (join_fails 0) 0 two_conn_world = (r, w')"
    by (cases "close (join_fails 0) 0 two_conn_world")
  from close_raises(2) [OF s0 op env(1) env(2) env(3)] cl have r: "r = Some ?e"
    by simp
  have "store w' 1 = store two_conn_world 1"
    using close_other_object [of 0 1 "join_fails 0" two_conn_world] cl by simp
  with s1 have st: "map_option state (store w' 1) = Some ready"
    by (simp add: handshaken_def)
  have "registry_close join_fails two_conn_world = (Some ?e, w')"
    unfolding registry_close_def vals using cl r by simp
  with vals st show ?thesis by simp
qed

text \<open>
  C9, amended. The registry's \<^verbatim>\<open>close\<close> calls \<^verbatim>\<open>close\<close> on every connection the
  dictionary holds and passes over any \<^verbatim>\<open>socket.error\<close> one of them raises: when
  the connections raise nothing but \<^verbatim>\<open>socket.error\<close>, the registry's \<^verbatim>\<open>close\<close>
  does not raise and every connection that was in the dictionary is \<open>closed\<close>
  afterwards.
\<close>

theorem registry_close_swallows_socket_errors:
  assumes "\<forall>a \<in> set (map snd (connections w)). raises_only_socket_errors (env a)"
  shows "fst (registry_close env w) = None
     \<and> (\<forall>a \<in> set (map snd (connections w)). \<forall>c. store w a = Some c \<longrightarrow>
           (\<exists>c'. store (snd (registry_close env w)) a = Some c' \<and> state c' = closed))"
  using assms close_each_no_raise [of "map snd (connections w)" env w]
    close_each_closes [of "map snd (connections w)" env w]
  unfolding registry_close_def by blast

theorem registry_close_swallows_socket_errors_witness:
  "map snd (connections two_conn_world) = [0, 1]
   \<and> raises_only_socket_errors (sock_fails 0)
   \<and> raises_only_socket_errors (sock_fails 1)
   \<and> fst (close (sock_fails 0) 0 two_conn_world) = Some SocketError
   \<and> fst (registry_close sock_fails two_conn_world) = None
   \<and> (\<exists>c'. store (snd (registry_close sock_fails two_conn_world)) 0 = Some c'
          \<and> state c' = closed)
   \<and> (\<exists>c'. store (snd (registry_close sock_fails two_conn_world)) 1 = Some c'
          \<and> state c' = closed)"
proof -
  have h: "\<forall>a \<in> set (map snd (connections two_conn_world)).
      raises_only_socket_errors (sock_fails a)"
    by (simp add: raises_only_socket_errors_def sock_fails_def quiet_def)
  have s0: "store two_conn_world 0 = Some (handshaken 0 ''a'' 1)"
    by (simp add: two_conn_world_eq)
  have s1: "store two_conn_world 1 = Some (handshaken 1 ''b'' 2)"
    by (simp add: two_conn_world_eq)
  have op: "state (handshaken 0 ''a'' 1) \<noteq> closed"
    by (simp add: handshaken_def)
  have env: "sender_join (sock_fails 0) = None" "sock_close (sock_fails 0) = Some SocketError"
    by (simp_all add: sock_fails_def quiet_def)
  have e: "fst (close (sock_fails 0) 0 two_conn_world) = Some SocketError"
    by (rule close_raises(1) [OF s0 op env(1) env(2)])
  have m: "0 \<in> set (map snd (connections two_conn_world))"
    "1 \<in> set (map snd (connections two_conn_world))"
    by (simp_all add: two_conn_world_eq)
  note t = registry_close_swallows_socket_errors [OF h]
  from t have n: "fst (registry_close sock_fails two_conn_world) = None"
    by (rule conjunct1)
  from t have all: "\<forall>a \<in> set (map snd (connections two_conn_world)).
      \<forall>c. store two_conn_world a = Some c \<longrightarrow>
        (\<exists>c'. store (snd (registry_close sock_fails two_conn_world)) a = Some c'
           \<and> state c' = closed)"
    by (rule conjunct2)
  from all m(1) s0 have c0: "\<exists>c'. store (snd (registry_close sock_fails two_conn_world)) 0
      = Some c' \<and> state c' = closed"
    by blast
  from all m(2) s1 have c1: "\<exists>c'. store (snd (registry_close sock_fails two_conn_world)) 1
      = Some c' \<and> state c' = closed"
    by blast
  have v: "map snd (connections two_conn_world) = [0, 1]"
    by (simp add: two_conn_world_eq)
  have r: "raises_only_socket_errors (sock_fails 0)" "raises_only_socket_errors (sock_fails 1)"
    by (simp_all add: raises_only_socket_errors_def sock_fails_def quiet_def)
  from v r e n c0 c1 show ?thesis by blast
qed

section \<open>Properties of getting a connection\<close>

lemma locked_entries:
  "map_of (connections w) k = Some a \<Longrightarrow>
     map_of (connections (snd (get_connection_locked cd host port s w))) k = Some a"
  by (auto simp: get_connection_locked_def update_conv' split: option.splits sum.splits)

lemma locked_returns:
  "get_connection_locked cd host port s w = (Inr a, w') \<Longrightarrow>
     map_of (connections w') (host, port) = Some a"
  by (auto simp: get_connection_locked_def update_conv' split: option.splits sum.splits)

lemma locked_distinct:
  "distinct (map fst (connections w)) \<Longrightarrow>
     distinct (map fst (connections (snd (get_connection_locked cd host port s w))))"
  by (auto simp: get_connection_locked_def distinct_update split: option.splits sum.splits)

lemma connections_open_socket:
  "connections (snd (open_socket cr w)) = connections w"
  by (simp add: open_socket_def Let_def split: option.splits)

lemma fst_call_step:
  "fst (call_step t w) =
     (case at t of
        Connecting \<Rightarrow> snd (open_socket (connect_raises t) w)
      | Opened s \<Rightarrow> snd (get_connection_locked (peer t) (req_host t) (req_port t) s w)
      | _ \<Rightarrow> w)"
  by (simp add: call_step_def split: pc.splits sum.splits option.splits prod.splits)

lemma call_step_entries:
  "map_of (connections w) k = Some a \<Longrightarrow>
     map_of (connections (fst (call_step t w))) k = Some a"
  by (simp add: fst_call_step connections_open_socket locked_entries split: pc.splits)

lemma call_step_distinct:
  "distinct (map fst (connections w)) \<Longrightarrow>
     distinct (map fst (connections (fst (call_step t w))))"
  by (simp add: fst_call_step connections_open_socket locked_distinct split: pc.splits)

lemma call_step_key:
  "req_host (snd (call_step t w)) = req_host t \<and> req_port (snd (call_step t w)) = req_port t"
  by (auto simp: call_step_def split: pc.splits sum.splits option.splits prod.splits)

lemma call_step_returned:
  assumes "at (snd (call_step t w)) = Returned a"
    and "at t = Returned a \<longrightarrow> map_of (connections w) (req_host t, req_port t) = Some a"
  shows "map_of (connections (fst (call_step t w))) (req_host t, req_port t) = Some a"
  using assms
  by (auto simp: call_step_def get_connection_fast_def open_socket_def Let_def
      dest: locked_returns
      split: pc.splits sum.splits option.splits prod.splits if_splits)

lemma step_unfold:
  "step i (w, ts) =
     (if i < length ts
      then (fst (call_step (ts ! i) w), ts[i := snd (call_step (ts ! i) w)])
      else (w, ts))"
  by (simp add: step_def split: prod.splits)

lemma step_agree:
  assumes "returned_agree w ts"
  shows "returned_agree (fst (step i (w, ts))) (snd (step i (w, ts)))"
proof (cases "i < length ts")
  case False
  with assms show ?thesis by (simp add: step_def)
next
  case True
  let ?t = "ts ! i"
  let ?w' = "fst (call_step ?t w)"
  let ?t' = "snd (call_step ?t w)"
  have st: "step i (w, ts) = (?w', ts[i := ?t'])"
    using True by (simp add: step_unfold)
  have mem: "?t \<in> set ts" using True by simp
  have "\<forall>u \<in> set (ts[i := ?t']). \<forall>a. at u = Returned a \<longrightarrow>
      map_of (connections ?w') (req_host u, req_port u) = Some a"
  proof (intro ballI allI impI)
    fix u a
    assume u: "u \<in> set (ts[i := ?t'])" and r: "at u = Returned a"
    from u have "u = ?t' \<or> u \<in> set ts"
      using set_update_subset_insert [of ts i ?t'] by auto
    then show "map_of (connections ?w') (req_host u, req_port u) = Some a"
    proof
      assume eq: "u = ?t'"
      have pre: "at ?t = Returned a \<longrightarrow>
          map_of (connections w) (req_host ?t, req_port ?t) = Some a"
        using assms mem by (simp add: returned_agree_def)
      from call_step_returned [OF _ pre] r eq call_step_key [of ?t w]
      show ?thesis by simp
    next
      assume "u \<in> set ts"
      with assms r have "map_of (connections w) (req_host u, req_port u) = Some a"
        by (simp add: returned_agree_def)
      then show ?thesis by (rule call_step_entries)
    qed
  qed
  with st show ?thesis by (simp add: returned_agree_def)
qed

lemma step_entries:
  "map_of (connections w) k = Some a \<Longrightarrow>
     map_of (connections (fst (step i (w, ts)))) k = Some a"
  by (simp add: step_unfold call_step_entries)

lemma step_distinct:
  "distinct (map fst (connections w)) \<Longrightarrow>
     distinct (map fst (connections (fst (step i (w, ts)))))"
  by (simp add: step_unfold call_step_distinct)

lemma run_invariant:
  "returned_agree w ts \<Longrightarrow>
     returned_agree (fst (run sched (w, ts))) (snd (run sched (w, ts)))
     \<and> (map_of (connections w) k = Some a \<longrightarrow>
          map_of (connections (fst (run sched (w, ts)))) k = Some a)
     \<and> (distinct (map fst (connections w)) \<longrightarrow>
          distinct (map fst (connections (fst (run sched (w, ts))))))"
proof (induction sched arbitrary: w ts)
  case Nil
  then show ?case by simp
next
  case (Cons i sched)
  obtain w1 ts1 where s: "step i (w, ts) = (w1, ts1)" by (cases "step i (w, ts)")
  from step_agree [OF Cons.prems, of i] s have "returned_agree w1 ts1" by simp
  from Cons.IH [OF this] s step_entries [of w k a i ts] step_distinct [of w i ts]
  show ?case by simp
qed

lemma locked_existing:
  "map_of (connections w) (host, port) = Some a \<Longrightarrow>
     get_connection_locked cd host port s w
       = (Inr a, w\<lparr>socks := (socks w)(s \<mapsto> False)\<rparr>)"
  by (simp add: get_connection_locked_def)

lemma not_started_agree: "\<forall>t \<in> set ts. at t = AtStart \<Longrightarrow> returned_agree w ts"
  by (simp add: returned_agree_def)

text \<open>
  C8. Start with any registry and any number of calls of \<^verbatim>\<open>_get_connection\<close> that
  have not begun, and let them run interleaved in any order, each stretch between two
  points where another call can run being one step. Then an entry of the dictionary is
  never replaced, the dictionary keeps one entry per key, and any two calls for the same
  (host, port) that have returned hold the same connection, the one the dictionary has
  for that key. In particular a call that reaches the locked block when the key has an
  entry closes the socket it opened and returns that entry, and installs nothing.
\<close>

theorem get_connection_single_connection:
  assumes "\<forall>t \<in> set ts. at t = AtStart"
  shows "(map_of (connections w) k = Some a \<longrightarrow>
            map_of (connections (fst (run sched (w, ts)))) k = Some a)
     \<and> (distinct (map fst (connections w)) \<longrightarrow>
            distinct (map fst (connections (fst (run sched (w, ts))))))
     \<and> (\<forall>t1 \<in> set (snd (run sched (w, ts))). \<forall>t2 \<in> set (snd (run sched (w, ts))).
           \<forall>a1 a2. at t1 = Returned a1 \<and> at t2 = Returned a2
              \<and> req_host t1 = req_host t2 \<and> req_port t1 = req_port t2 \<longrightarrow>
             a1 = a2
             \<and> map_of (connections (fst (run sched (w, ts)))) (req_host t1, req_port t1)
                 = Some a1)
     \<and> (map_of (connections w2) (host, port) = Some b \<longrightarrow>
            get_connection_locked cd host port s w2
              = (Inr b, w2\<lparr>socks := (socks w2)(s \<mapsto> False)\<rparr>))"
proof -
  from assms have ag: "returned_agree w ts" by (rule not_started_agree)
  note inv = run_invariant [OF ag, of sched k a]
  from inv have agree: "returned_agree (fst (run sched (w, ts))) (snd (run sched (w, ts)))"
    by (rule conjunct1)
  have same: "\<forall>t1 \<in> set (snd (run sched (w, ts))). \<forall>t2 \<in> set (snd (run sched (w, ts))).
           \<forall>a1 a2. at t1 = Returned a1 \<and> at t2 = Returned a2
              \<and> req_host t1 = req_host t2 \<and> req_port t1 = req_port t2 \<longrightarrow>
             a1 = a2
             \<and> map_of (connections (fst (run sched (w, ts)))) (req_host t1, req_port t1)
                 = Some a1"
  proof (intro ballI allI impI)
    fix t1 t2 a1 a2
    assume m1: "t1 \<in> set (snd (run sched (w, ts)))"
      and m2: "t2 \<in> set (snd (run sched (w, ts)))"
      and r: "at t1 = Returned a1 \<and> at t2 = Returned a2
              \<and> req_host t1 = req_host t2 \<and> req_port t1 = req_port t2"
    from agree [unfolded returned_agree_def] m1 r
    have e1: "map_of (connections (fst (run sched (w, ts)))) (req_host t1, req_port t1)
        = Some a1"
      by blast
    from agree [unfolded returned_agree_def] m2 r
    have e2: "map_of (connections (fst (run sched (w, ts)))) (req_host t2, req_port t2)
        = Some a2"
      by blast
    from e1 e2 r show "a1 = a2
        \<and> map_of (connections (fst (run sched (w, ts)))) (req_host t1, req_port t1)
            = Some a1"
      by simp
  qed
  from inv same locked_existing [of w2 host port b cd s] show ?thesis by blast
qed

lemma race_result:
  "connections (fst (run race (empty_world, two_calls))) = [((''a'', 1), 0)]
   \<and> map at (snd (run race (empty_world, two_calls))) = [Returned 0, Returned 0]
   \<and> socks (fst (run race (empty_world, two_calls))) 0 = Some True
   \<and> socks (fst (run race (empty_world, two_calls))) 1 = Some False
   \<and> next_addr (fst (run race (empty_world, two_calls))) = 1"
  by (simp add: race_def two_calls_def empty_world_def step_unfold call_step_def
      get_connection_fast_def open_socket_def get_connection_locked_def init_ok_codec
      Let_def)

theorem get_connection_single_connection_witness:
  "map at two_calls = [AtStart, AtStart]
   \<and> connections (fst (run race (empty_world, two_calls))) = [((''a'', 1), 0)]
   \<and> map at (snd (run race (empty_world, two_calls))) = [Returned 0, Returned 0]
   \<and> socks (fst (run race (empty_world, two_calls))) 0 = Some True
   \<and> socks (fst (run race (empty_world, two_calls))) 1 = Some False
   \<and> next_addr (fst (run race (empty_world, two_calls))) = 1
   \<and> distinct (map fst (connections (fst (run race (empty_world, two_calls)))))"
proof -
  have h: "\<forall>t \<in> set two_calls. at t = AtStart"
    by (simp add: two_calls_def)
  have st: "map at two_calls = [AtStart, AtStart]"
    by (simp add: two_calls_def)
  have d: "distinct (map fst (connections empty_world))"
    by (simp add: empty_world_def)
  note t = get_connection_single_connection [OF h, where w = empty_world
      and sched = race and k = "(''a'', 1)" and a = 0 and ?w2.0 = empty_world
      and host = "''a''" and port = 1 and b = 0 and cd = ok_codec and s = 0]
  from t d have "distinct (map fst (connections (fst (run race (empty_world, two_calls)))))"
    by blast
  with st race_result show ?thesis by (intro conjI) (elim conjE, assumption)+
qed

end
